theory Spec2Isabelle
  imports Main "HOL-Library.FSet" "HOL-Library.Sublist"
begin

section \<open>The Phase 0 meta workflow (src/workflows/meta_workflow.py)\<close>

subsection \<open>Strings\<close>

text \<open>
  Python strings are modelled as \<open>string\<close>; the labels and tags the workflow handles are
  ASCII. \<open>str_nat\<close> and \<open>str_int\<close> are what an f-string prints for a number.
\<close>

definition digit_char :: "nat \<Rightarrow> char" where
  "digit_char d = char_of (48 + d)"

fun str_nat :: "nat \<Rightarrow> string" where
  "str_nat n = (if n < 10 then [digit_char n] else str_nat (n div 10) @ [digit_char (n mod 10)])"

declare str_nat.simps [simp del]

definition str_int :: "int \<Rightarrow> string" where
  "str_int i = (if i < 0 then CHR ''-'' # str_nat (nat (- i)) else str_nat (nat i))"

text \<open>The en dash of the source's messages, as its three UTF-8 bytes.\<close>

definition en_dash :: string where
  "en_dash = [CHR 0xE2, CHR 0x80, CHR 0x93]"

text \<open>\<open>str.lower()\<close> and \<open>str.strip()\<close> on ASCII text.\<close>

definition lower_char :: "char \<Rightarrow> char" where
  "lower_char c =
     (case map_of (zip ''ABCDEFGHIJKLMNOPQRSTUVWXYZ'' ''abcdefghijklmnopqrstuvwxyz'') c of
        None \<Rightarrow> c
      | Some l \<Rightarrow> l)"

definition lower :: "string \<Rightarrow> string" where
  "lower s = map lower_char s"

definition is_space :: "char \<Rightarrow> bool" where
  "is_space c = ((of_char c :: nat) \<in> {9, 10, 11, 12, 13, 28, 29, 30, 31, 32})"

definition strip :: "string \<Rightarrow> string" where
  "strip s = rev (dropWhile is_space (rev (dropWhile is_space s)))"

subsection \<open>Dictionaries\<close>

text \<open>
  A Python dict keeps its keys in insertion order; storing under a key that is present
  replaces the value in place. \<open>dict_get d k dflt\<close> is \<open>d.get(k, dflt)\<close>.
\<close>

fun dict_set :: "('k \<times> 'v) list \<Rightarrow> 'k \<Rightarrow> 'v \<Rightarrow> ('k \<times> 'v) list" where
  "dict_set [] k v = [(k, v)]"
| "dict_set ((k', v') # d) k v = (if k' = k then (k', v) # d else (k', v') # dict_set d k v)"

definition dict_get :: "('k \<times> 'v) list \<Rightarrow> 'k \<Rightarrow> 'v \<Rightarrow> 'v" where
  "dict_get d k dflt = (case map_of d k of None \<Rightarrow> dflt | Some v \<Rightarrow> v)"

subsection \<open>Constants\<close>

definition MIN_TOTAL_BATTLES :: int where
  "MIN_TOTAL_BATTLES = 500"

definition MIN_GAMES_PER_TYPE :: int where
  "MIN_GAMES_PER_TYPE = 50"

definition REQUIRED_DECK_TYPES_LOWER :: "string list" where
  "REQUIRED_DECK_TYPES_LOWER = [''siege'', ''bait'', ''cycle'', ''bridge spam'', ''beatdown'']"

subsection \<open>State\<close>

text \<open>
  A player is a dict read only through \<open>player.get("tag")\<close>; \<open>name\<close> stands for the
  rest of the entry.
\<close>

record player =
  tag :: "string option"
  name :: string

text \<open>
  Modelled from the spec: the normalized match record that
  \<open>filter_and_normalize_ranked_1v1\<close> (src/analytics/battle_filters.py, not among the
  sources) produces, with the two category fields of the specification's MatchRecord.
  The workflow reads a battle only as a list element.
\<close>

record battle =
  category :: string
  opponent_category :: string

text \<open>
  One row of the \<open>opp_deck_types\<close> table and the analytics dict, with the keys the
  workflow reads or writes. \<open>None\<close> is an absent key.
\<close>

record row =
  row_type :: "string option"
  row_games :: "int option"

record analytics =
  summary_games_played :: "int option"
  opp_deck_types :: "row list option"
  games_total :: "int option"
  deck_type_counts_opp :: "(string \<times> int) list option"
  source :: "string option"

definition empty_analytics :: analytics where
  "empty_analytics = \<lparr>summary_games_played = None, opp_deck_types = None, games_total = None,
     deck_type_counts_opp = None, source = None\<rparr>"

text \<open>
  \<open>MetaState\<close> is a TypedDict with \<open>total=False\<close>: every key may be absent. A node
  returns the keys it sets and the graph stores them over the old values, so a node is
  modelled as the function from the state before to the state after. The key \<open>notes\<close>
  is the field \<open>state_notes\<close>.
\<close>

record MetaState =
  top_players :: "player list option"
  selected_players :: "player list option"
  used_player_indices :: "nat fset option"
  fetched_player_tags :: "string fset option"
  meta_raw_battles :: "battle list option"
  normalized_battles :: "battle list option"
  meta_analytics :: "analytics option"
  is_balanced :: "bool option"
  loop_count :: "int option"
  stop_decision :: "string option"
  state_notes :: "string list option"

text \<open>The reads \<open>state.get(key, default)\<close> of the nodes.\<close>

definition get_top_players :: "MetaState \<Rightarrow> player list" where
  "get_top_players st = (case top_players st of None \<Rightarrow> [] | Some v \<Rightarrow> v)"

definition get_selected_players :: "MetaState \<Rightarrow> player list" where
  "get_selected_players st = (case selected_players st of None \<Rightarrow> [] | Some v \<Rightarrow> v)"

definition get_used_player_indices :: "MetaState \<Rightarrow> nat fset" where
  "get_used_player_indices st = (case used_player_indices st of None \<Rightarrow> {||} | Some v \<Rightarrow> v)"

definition get_fetched_player_tags :: "MetaState \<Rightarrow> string fset" where
  "get_fetched_player_tags st = (case fetched_player_tags st of None \<Rightarrow> {||} | Some v \<Rightarrow> v)"

definition get_meta_raw_battles :: "MetaState \<Rightarrow> battle list" where
  "get_meta_raw_battles st = (case meta_raw_battles st of None \<Rightarrow> [] | Some v \<Rightarrow> v)"

definition get_meta_analytics :: "MetaState \<Rightarrow> analytics" where
  "get_meta_analytics st = (case meta_analytics st of None \<Rightarrow> empty_analytics | Some v \<Rightarrow> v)"

definition get_loop_count :: "MetaState \<Rightarrow> int" where
  "get_loop_count st = (case loop_count st of None \<Rightarrow> 0 | Some v \<Rightarrow> v)"

definition get_stop_decision :: "MetaState \<Rightarrow> string" where
  "get_stop_decision st = (case stop_decision st of None \<Rightarrow> [] | Some v \<Rightarrow> v)"

definition get_notes :: "MetaState \<Rightarrow> string list" where
  "get_notes st = (case state_notes st of None \<Rightarrow> [] | Some v \<Rightarrow> v)"

subsection \<open>check_enough_battles_node and route_after_check_enough\<close>

text \<open>The locals of \<open>check_enough_battles_node\<close>, in the order the source computes them.\<close>

definition check_games_total :: "MetaState \<Rightarrow> int" where
  "check_games_total st =
     (case games_total (get_meta_analytics st) of
        None \<Rightarrow> int (length (get_meta_raw_battles st))
      | Some g \<Rightarrow> g)"

definition deck_counts_raw :: "MetaState \<Rightarrow> (string \<times> int) list" where
  "deck_counts_raw st =
     (case deck_type_counts_opp (get_meta_analytics st) of None \<Rightarrow> [] | Some d \<Rightarrow> d)"

definition lower_keys :: "(string \<times> int) list \<Rightarrow> (string \<times> int) list" where
  "lower_keys items = foldl (\<lambda>d (k, v). dict_set d (lower k) v) [] items"

definition deck_counts_lower :: "MetaState \<Rightarrow> (string \<times> int) list" where
  "deck_counts_lower st = lower_keys (deck_counts_raw st)"

definition insufficient_types :: "MetaState \<Rightarrow> (string \<times> int) list" where
  "insufficient_types st =
     foldl (\<lambda>ins t. let count = dict_get (deck_counts_lower st) t 0
                     in if count < MIN_GAMES_PER_TYPE then dict_set ins t count else ins)
           [] REQUIRED_DECK_TYPES_LOWER"

definition enough_total :: "MetaState \<Rightarrow> bool" where
  "enough_total st = (check_games_total st \<ge> MIN_TOTAL_BATTLES)"

definition enough_per_type :: "MetaState \<Rightarrow> bool" where
  "enough_per_type st = (length (insufficient_types st) = 0)"

definition remaining :: "MetaState \<Rightarrow> int" where
  "remaining st =
     max 0 (int (length (get_top_players st)) - int (fcard (get_used_player_indices st)))"

text \<open>\<open>repr\<close> of the \<open>insufficient_types\<close> dict, whose keys are required type names.\<close>

definition repr_counts :: "(string \<times> int) list \<Rightarrow> string" where
  "repr_counts d =
     ''{'' @ concat (map (\<lambda>(i, (k, v)). (if i = 0 then [] else '', '')
                            @ [CHR 0x27] @ k @ [CHR 0x27] @ '': '' @ str_int v)
                         (zip [0..<length d] d)) @ ''}''"

definition check_details :: "MetaState \<Rightarrow> string" where
  "check_details st =
     ''games_total='' @ str_int (check_games_total st)
     @ '', remaining_players='' @ str_int (remaining st)
     @ '', loop_count='' @ str_int (get_loop_count st)
     @ '', insufficient_types='' @ repr_counts (insufficient_types st) @ ''.''"

definition check_enough_battles_node :: "MetaState \<Rightarrow> MetaState" where
  "check_enough_battles_node st =
     (if enough_total st \<and> enough_per_type st then
        st\<lparr>is_balanced := Some True, stop_decision := Some ''enough'',
           state_notes := Some (get_notes st @
             [''check_enough_battles: enough data. games_total='' @ str_int (check_games_total st)
              @ '', all required deck types >= '' @ str_int MIN_GAMES_PER_TYPE @ ''.''])\<rparr>
      else if remaining st \<le> 0 \<or> get_loop_count st \<ge> 20 then
        st\<lparr>is_balanced := Some False, stop_decision := Some ''stop'',
           state_notes := Some (get_notes st @
             [''check_enough_battles: stopping. '' @ check_details st])\<rparr>
      else
        st\<lparr>is_balanced := Some False, stop_decision := Some ''need_more'',
           state_notes := Some (get_notes st @
             [''check_enough_battles: need more data. '' @ check_details st])\<rparr>)"

definition route_after_check_enough :: "MetaState \<Rightarrow> string" where
  "route_after_check_enough st =
     (let decision = get_stop_decision st
      in if decision \<in> set [''enough'', ''need_more'', ''stop''] then decision else ''stop'')"

subsection \<open>Sampling nodes\<close>

text \<open>
  \<open>random.sample(population, k)\<close> returns \<open>k\<close> elements at distinct positions of the
  population. Both populations here are lists of distinct indices, so a result is any
  duplicate-free list of \<open>k\<close> of their elements. The nodes take the result of their
  \<open>random.sample\<close> call as the argument \<open>sampled\<close>.
\<close>

definition random_sample_ok :: "nat list \<Rightarrow> nat \<Rightarrow> nat list \<Rightarrow> bool" where
  "random_sample_ok population k sampled =
     (length sampled = k \<and> distinct sampled \<and> set sampled \<subseteq> set population)"

definition all_indices :: "MetaState \<Rightarrow> nat list" where
  "all_indices st = [0..<length (get_top_players st)]"

definition unused_indices :: "MetaState \<Rightarrow> nat list" where
  "unused_indices st = filter (\<lambda>i. i |\<notin>| get_used_player_indices st) (all_indices st)"

definition initial_sample_size :: "MetaState \<Rightarrow> nat" where
  "initial_sample_size st = min 50 (length (all_indices st))"

definition more_sample_size :: "MetaState \<Rightarrow> nat" where
  "more_sample_size st = min 5 (length (unused_indices st))"

text \<open>The indices a sampling call draws: the locals \<open>sampled_indices\<close> and \<open>new_indices\<close>.\<close>

definition sampled_indices :: "nat list \<Rightarrow> MetaState \<Rightarrow> nat list" where
  "sampled_indices sampled st = (if get_top_players st = [] then [] else sampled)"

definition new_indices :: "nat list \<Rightarrow> MetaState \<Rightarrow> nat list" where
  "new_indices sampled st =
     (if get_top_players st = [] then [] else if unused_indices st = [] then [] else sampled)"

definition sample_initial_50_node :: "nat list \<Rightarrow> MetaState \<Rightarrow> MetaState" where
  "sample_initial_50_node sampled st =
     (let top = get_top_players st; ns = get_notes st
      in if top = [] then
           st\<lparr>selected_players := Some [],
              state_notes := Some (ns @ [''sample_initial_50: WARNING '' @ en_dash
                                         @ '' top_players is empty.''])\<rparr>
         else
           (let selected = map (\<lambda>i. top ! i) sampled;
                used = get_used_player_indices st |\<union>| fset_of_list sampled
            in st\<lparr>selected_players := Some selected,
                  used_player_indices := Some used,
                  state_notes := Some (ns @ [''sample_initial_50: sampled ''
                     @ str_nat (length selected) @ '' players out of ''
                     @ str_nat (length top) @ ''.''])\<rparr>))"

definition sample_more_5_node :: "nat list \<Rightarrow> MetaState \<Rightarrow> MetaState" where
  "sample_more_5_node sampled st =
     (let top = get_top_players st; used = get_used_player_indices st;
          lc = get_loop_count st; ns = get_notes st
      in if top = [] then
           st\<lparr>selected_players := Some [],
              state_notes := Some (ns @ [''sample_more_5: WARNING '' @ en_dash
                                         @ '' top_players is empty.''])\<rparr>
         else if unused_indices st = [] then
           st\<lparr>selected_players := Some [],
              used_player_indices := Some used,
              state_notes := Some (ns @
                 [''sample_more_5: no unused players left; cannot sample more.''])\<rparr>
         else
           (let selected = map (\<lambda>i. top ! i) sampled;
                used' = used |\<union>| fset_of_list sampled;
                lc' = lc + 1
            in st\<lparr>selected_players := Some selected,
                  used_player_indices := Some used',
                  loop_count := Some lc',
                  state_notes := Some (ns @ [''sample_more_5: loop '' @ str_int lc' @ '' ''
                     @ en_dash @ '' sampled '' @ str_nat (length selected)
                     @ '' more players; total_used='' @ str_nat (fcard used') @ ''/''
                     @ str_nat (length top) @ ''.''])\<rparr>))"

subsection \<open>fetch_top_players_node\<close>

text \<open>\<open>fetched\<close> is what \<open>fetch_top_players(limit=300)\<close> returned.\<close>

definition fetch_top_players_node :: "player list \<Rightarrow> MetaState \<Rightarrow> MetaState" where
  "fetch_top_players_node fetched st =
     st\<lparr>top_players := Some fetched,
        selected_players := Some [],
        used_player_indices := Some {||},
        fetched_player_tags := Some {||},
        meta_raw_battles := Some [],
        normalized_battles := Some [],
        meta_analytics := Some empty_analytics,
        is_balanced := Some False,
        loop_count := Some 0,
        stop_decision := Some [],
        state_notes := Some (get_notes st @
           [''Fetched '' @ str_nat (length fetched) @ '' top players from API''])\<rparr>"

subsection \<open>fetch_meta_battles_node\<close>

text \<open>
  The two calls of the \<open>try\<close> block are parameters: \<open>get_player_battlelog\<close> maps a tag
  to the raw log and \<open>filter_and_normalize_ranked_1v1\<close> a raw log to the normalized
  battles; either may raise, which is \<open>Inl\<close> of the exception's text. \<open>try_fetch\<close> is
  the outcome of the two calls in sequence.
\<close>

definition try_fetch ::
  "(string \<Rightarrow> string + 'r) \<Rightarrow> ('r \<Rightarrow> string + battle list) \<Rightarrow> string \<Rightarrow> string + battle list" where
  "try_fetch get_player_battlelog filter_and_normalize_ranked_1v1 t =
     (case get_player_battlelog t of
        Inl e \<Rightarrow> Inl e
      | Inr raw_log \<Rightarrow> filter_and_normalize_ranked_1v1 raw_log)"

text \<open>
  The variables of the loop over the selected players. \<open>calls\<close> is not a variable of the
  source: it lists the tags passed to \<open>get_player_battlelog\<close>, in call order.
\<close>

record fetch_vars =
  meta_raw :: "battle list"
  fetched_tags :: "string fset"
  fetch_notes :: "string list"
  new_battle_count :: nat
  new_player_count :: nat
  calls :: "string list"

definition fetch_error_note :: "string \<Rightarrow> string \<Rightarrow> string" where
  "fetch_error_note t e = ''fetch_meta_battles: error fetching '' @ t @ '': '' @ e"

definition fetch_player ::
  "(string \<Rightarrow> string + 'r) \<Rightarrow> ('r \<Rightarrow> string + battle list) \<Rightarrow> player \<Rightarrow> fetch_vars \<Rightarrow> fetch_vars" where
  "fetch_player G F p v =
     (case tag p of
        None \<Rightarrow> v
      | Some t \<Rightarrow>
          if t = [] then v
          else if t |\<in>| fetched_tags v then v
          else
            (case try_fetch G F t of
               Inr normalized \<Rightarrow>
                 (let take_n = min (length normalized) 10;
                      recent_ranked = take take_n normalized
                  in v\<lparr>meta_raw := meta_raw v @ recent_ranked,
                       new_battle_count := new_battle_count v + length recent_ranked,
                       new_player_count := new_player_count v + 1,
                       fetched_tags := finsert t (fetched_tags v),
                       calls := calls v @ [t]\<rparr>)
             | Inl e \<Rightarrow>
                 v\<lparr>fetch_notes := fetch_notes v @ [fetch_error_note t e],
                   calls := calls v @ [t]\<rparr>))"

fun fetch_players ::
  "(string \<Rightarrow> string + 'r) \<Rightarrow> ('r \<Rightarrow> string + battle list) \<Rightarrow> player list \<Rightarrow> fetch_vars \<Rightarrow> fetch_vars" where
  "fetch_players G F [] v = v"
| "fetch_players G F (p # ps) v = fetch_players G F ps (fetch_player G F p v)"

definition fetch_init :: "MetaState \<Rightarrow> fetch_vars" where
  "fetch_init st =
     \<lparr>meta_raw = get_meta_raw_battles st,
      fetched_tags = get_fetched_player_tags st,
      fetch_notes = get_notes st,
      new_battle_count = 0,
      new_player_count = 0,
      calls = []\<rparr>"

definition fetch_result ::
  "(string \<Rightarrow> string + 'r) \<Rightarrow> ('r \<Rightarrow> string + battle list) \<Rightarrow> MetaState \<Rightarrow> fetch_vars" where
  "fetch_result G F st = fetch_players G F (get_selected_players st) (fetch_init st)"

definition fetch_meta_battles_node ::
  "(string \<Rightarrow> string + 'r) \<Rightarrow> ('r \<Rightarrow> string + battle list) \<Rightarrow> MetaState \<Rightarrow> MetaState" where
  "fetch_meta_battles_node G F st =
     (if get_selected_players st = [] then
        st\<lparr>meta_raw_battles := Some (get_meta_raw_battles st),
           normalized_battles := Some (get_meta_raw_battles st),
           fetched_player_tags := Some (get_fetched_player_tags st),
           state_notes := Some (get_notes st @
              [''fetch_meta_battles: no selected_players; nothing to fetch.''])\<rparr>
      else
        (let v = fetch_result G F st
         in st\<lparr>meta_raw_battles := Some (meta_raw v),
               normalized_battles := Some (meta_raw v),
               fetched_player_tags := Some (fetched_tags v),
               state_notes := Some (fetch_notes v @
                  [''fetch_meta_battles: fetched '' @ str_nat (new_battle_count v)
                   @ '' normalized ranked 1v1 battles from '' @ str_nat (new_player_count v)
                   @ '' new players. total_meta_battles='' @ str_nat (length (meta_raw v))])\<rparr>))"


subsection \<open>compute_meta_analytics (src/analytics/meta_analytics.py) and its node\<close>

text \<open>
  \<open>compute_user_analytics\<close> is a parameter \<open>U\<close>: it returns the analytics dict that
  \<open>compute_meta_analytics\<close> extends with three keys.
\<close>

definition row_key :: "row \<Rightarrow> string" where
  "row_key r = strip (case row_type r of None \<Rightarrow> [] | Some t \<Rightarrow> t)"

definition row_count :: "row \<Rightarrow> int" where
  "row_count r = (case row_games r of None \<Rightarrow> 0 | Some g \<Rightarrow> g)"

definition counts_of_rows :: "row list \<Rightarrow> (string \<times> int) list" where
  "counts_of_rows rows = foldl (\<lambda>d r. dict_set d (row_key r) (row_count r)) [] rows"

definition compute_meta_analytics :: "(battle list \<Rightarrow> analytics) \<Rightarrow> battle list \<Rightarrow> analytics" where
  "compute_meta_analytics U battles_normalized =
     (let a = U battles_normalized;
          total = (case summary_games_played a of
                     None \<Rightarrow> int (length battles_normalized) | Some g \<Rightarrow> g);
          rows = (case opp_deck_types a of None \<Rightarrow> [] | Some rs \<Rightarrow> rs)
      in a\<lparr>games_total := Some total,
           deck_type_counts_opp := Some (counts_of_rows rows),
           source := Some ''meta''\<rparr>)"

definition compute_meta_analytics_node :: "(battle list \<Rightarrow> analytics) \<Rightarrow> MetaState \<Rightarrow> MetaState" where
  "compute_meta_analytics_node U st =
     (let battles = get_meta_raw_battles st;
          a = compute_meta_analytics U battles
      in st\<lparr>meta_analytics := Some a,
            state_notes := Some (get_notes st @
              [''compute_meta_analytics: games_total=''
               @ str_int (case games_total a of None \<Rightarrow> int (length battles) | Some g \<Rightarrow> g)
               @ '', deck_types_opp=''
               @ str_nat (length (case opp_deck_types a of None \<Rightarrow> [] | Some rs \<Rightarrow> rs))])\<rparr>)"

subsection \<open>The graph of build_meta_graph\<close>

text \<open>
  The linear edges \<open>fetch_meta_battles \<rightarrow> compute_meta_analytics \<rightarrow> check_enough_battles\<close>:
  one evaluation of the stopping condition on the batch selected last.
\<close>

definition fetch_compute_check ::
  "(string \<Rightarrow> string + 'r) \<Rightarrow> ('r \<Rightarrow> string + battle list) \<Rightarrow> (battle list \<Rightarrow> analytics)
     \<Rightarrow> MetaState \<Rightarrow> MetaState" where
  "fetch_compute_check G F U st =
     check_enough_battles_node (compute_meta_analytics_node U (fetch_meta_battles_node G F st))"

text \<open>
  The cycle through the conditional edge: after each evaluation the route \<open>need_more\<close>
  leads to \<open>sample_more_5\<close> and back to \<open>fetch_meta_battles\<close>, any other route to END.
  \<open>draw i\<close> is what \<open>random.sample\<close> returns in the \<open>i\<close>-th call of \<open>sample_more_5\<close>.
  The result has one entry for each evaluation: the state entering \<open>fetch_meta_battles\<close>,
  the state leaving \<open>check_enough_battles\<close>, and the draw of the \<open>sample_more_5\<close> call
  that follows (\<open>None\<close> when END follows).
\<close>

record cycle =
  entering :: MetaState
  leaving :: MetaState
  drawn :: "nat list option"

function meta_loop ::
  "(string \<Rightarrow> string + 'r) \<Rightarrow> ('r \<Rightarrow> string + battle list) \<Rightarrow> (battle list \<Rightarrow> analytics)
     \<Rightarrow> (nat \<Rightarrow> nat list) \<Rightarrow> nat \<Rightarrow> MetaState \<Rightarrow> cycle list" where
  "meta_loop G F U draw i st =
     (if route_after_check_enough (fetch_compute_check G F U st) = ''need_more''
      then \<lparr>entering = st, leaving = fetch_compute_check G F U st, drawn = Some (draw i)\<rparr>
             # meta_loop G F U draw (Suc i)
                 (sample_more_5_node (draw i) (fetch_compute_check G F U st))
      else [\<lparr>entering = st, leaving = fetch_compute_check G F U st, drawn = None\<rparr>])"
  by pat_completeness auto

text \<open>
  A run of the compiled graph: \<open>fetch_top_players\<close>, \<open>sample_initial_50\<close>, then the cycle.
  \<open>P\<close> is the population the API returned and \<open>d0\<close> the draw of the initial sample.
\<close>

definition initial_state :: "player list \<Rightarrow> MetaState \<Rightarrow> MetaState" where
  "initial_state P init = fetch_top_players_node P init"

definition run_graph ::
  "(string \<Rightarrow> string + 'r) \<Rightarrow> ('r \<Rightarrow> string + battle list) \<Rightarrow> (battle list \<Rightarrow> analytics)
     \<Rightarrow> player list \<Rightarrow> nat list \<Rightarrow> (nat \<Rightarrow> nat list) \<Rightarrow> MetaState \<Rightarrow> cycle list" where
  "run_graph G F U P d0 draw init =
     meta_loop G F U draw 0 (sample_initial_50_node d0 (initial_state P init))"

text \<open>
  The indices returned by the sampling call that follows a cycle (none when END follows),
  and by all calls of a run, the initial one first.
\<close>

definition cycle_indices :: "cycle \<Rightarrow> nat list" where
  "cycle_indices c = (case drawn c of None \<Rightarrow> [] | Some d \<Rightarrow> new_indices d (leaving c))"

definition returned_indices :: "player list \<Rightarrow> nat list \<Rightarrow> MetaState \<Rightarrow> cycle list \<Rightarrow> nat list list" where
  "returned_indices P d0 init run =
     sampled_indices d0 (initial_state P init) # map cycle_indices run"

text \<open>Every draw of a run is a result \<open>random.sample\<close> can return for its arguments.\<close>

definition cycle_draw_ok :: "cycle \<Rightarrow> bool" where
  "cycle_draw_ok c =
     (case drawn c of
        None \<Rightarrow> True
      | Some d \<Rightarrow> random_sample_ok (unused_indices (leaving c)) (more_sample_size (leaving c)) d)"

definition draws_ok :: "player list \<Rightarrow> nat list \<Rightarrow> MetaState \<Rightarrow> cycle list \<Rightarrow> bool" where
  "draws_ok P d0 init run =
     (random_sample_ok (all_indices (initial_state P init))
        (initial_sample_size (initial_state P init)) d0
      \<and> list_all cycle_draw_ok run)"

text \<open>
  The used-index set along a run: entering and leaving a cycle it is \<open>u\<close>, and the next
  cycle starts from \<open>u\<close> plus the indices the sampling call in between returned.
\<close>

fun used_grows :: "nat fset \<Rightarrow> cycle list \<Rightarrow> bool" where
  "used_grows u [] = True"
| "used_grows u (c # cs) =
     (get_used_player_indices (entering c) = u \<and> get_used_player_indices (leaving c) = u
      \<and> used_grows (u |\<union>| fset_of_list (cycle_indices c)) cs)"



subsection \<open>The per-category count of the stopping decision\<close>





subsection \<open>Predicates used in the statements\<close>



subsection \<open>Example inputs\<close>

text \<open>
  \<open>blank_state\<close> is the empty dict. \<open>example_log\<close> times out for the tag \<open>#A\<close> and
  returns twelve battles for any other tag, \<open>failing_log\<close> times out for every tag, and
  \<open>no_analytics\<close> returns an analytics dict without any key.
\<close>

definition blank_state :: MetaState where
  "blank_state = \<lparr>top_players = None, selected_players = None, used_player_indices = None,
     fetched_player_tags = None, meta_raw_battles = None, normalized_battles = None,
     meta_analytics = None, is_balanced = None, loop_count = None, stop_decision = None,
     state_notes = None\<rparr>"

definition player_a :: player where
  "player_a = \<lparr>tag = Some ''#A'', name = ''a''\<rparr>"

definition player_b :: player where
  "player_b = \<lparr>tag = Some ''#B'', name = ''b''\<rparr>"

definition siege_battle :: battle where
  "siege_battle = \<lparr>category = ''cycle'', opponent_category = ''siege''\<rparr>"




definition example_log :: "string \<Rightarrow> string + battle list" where
  "example_log t = (if t = ''#A'' then Inl ''timeout'' else Inr (replicate 12 siege_battle))"

definition example_normalize :: "battle list \<Rightarrow> string + battle list" where
  "example_normalize raw_log = Inr raw_log"

definition failing_log :: "string \<Rightarrow> string + battle list" where
  "failing_log t = Inl ''timeout''"

definition no_analytics :: "battle list \<Rightarrow> analytics" where
  "no_analytics bs = empty_analytics"

definition population_51 :: "player list" where
  "population_51 = replicate 51 player_a"


definition batch_b :: MetaState where
  "batch_b = blank_state\<lparr>selected_players := Some [player_b]\<rparr>"

definition exhausted_state :: MetaState where
  "exhausted_state = blank_state\<lparr>top_players := Some [player_a], used_player_indices := Some {|0|}\<rparr>"

definition fresh_state :: MetaState where
  "fresh_state = blank_state\<lparr>top_players := Some [player_a, player_b]\<rparr>"


section \<open>Properties\<close>

subsection \<open>What each node leaves untouched\<close>

lemmas getters = get_top_players_def get_selected_players_def get_used_player_indices_def
  get_fetched_player_tags_def get_meta_raw_battles_def get_meta_analytics_def get_loop_count_def
  get_stop_decision_def get_notes_def

lemma check_frame [simp]:
  "get_top_players (check_enough_battles_node st) = get_top_players st"
  "get_used_player_indices (check_enough_battles_node st) = get_used_player_indices st"
  "get_loop_count (check_enough_battles_node st) = get_loop_count st"
  "get_meta_raw_battles (check_enough_battles_node st) = get_meta_raw_battles st"
  "get_fetched_player_tags (check_enough_battles_node st) = get_fetched_player_tags st"
  "get_selected_players (check_enough_battles_node st) = get_selected_players st"
  by (simp_all add: check_enough_battles_node_def getters)

lemma compute_frame [simp]:
  "get_top_players (compute_meta_analytics_node U st) = get_top_players st"
  "get_used_player_indices (compute_meta_analytics_node U st) = get_used_player_indices st"
  "get_loop_count (compute_meta_analytics_node U st) = get_loop_count st"
  "get_meta_raw_battles (compute_meta_analytics_node U st) = get_meta_raw_battles st"
  "get_fetched_player_tags (compute_meta_analytics_node U st) = get_fetched_player_tags st"
  "get_selected_players (compute_meta_analytics_node U st) = get_selected_players st"
  by (simp_all add: compute_meta_analytics_node_def getters Let_def)

lemma fetch_frame [simp]:
  "get_top_players (fetch_meta_battles_node G F st) = get_top_players st"
  "get_used_player_indices (fetch_meta_battles_node G F st) = get_used_player_indices st"
  "get_loop_count (fetch_meta_battles_node G F st) = get_loop_count st"
  "get_selected_players (fetch_meta_battles_node G F st) = get_selected_players st"
  by (simp_all add: fetch_meta_battles_node_def getters Let_def)

lemma fetch_compute_check_frame [simp]:
  "get_top_players (fetch_compute_check G F U st) = get_top_players st"
  "get_used_player_indices (fetch_compute_check G F U st) = get_used_player_indices st"
  "get_loop_count (fetch_compute_check G F U st) = get_loop_count st"
  "get_selected_players (fetch_compute_check G F U st) = get_selected_players st"
  by (simp_all add: fetch_compute_check_def)

lemma unused_fetch_compute_check [simp]:
  "unused_indices (fetch_compute_check G F U st) = unused_indices st"
  by (simp add: unused_indices_def all_indices_def)

lemma remaining_frame [simp]:
  "remaining (compute_meta_analytics_node U st) = remaining st"
  "remaining (fetch_meta_battles_node G F st) = remaining st"
  "remaining (fetch_compute_check G F U st) = remaining st"
  by (simp_all add: remaining_def)

subsection \<open>The decision\<close>

lemma check_decision:
  "stop_decision (check_enough_battles_node st) =
     Some (if enough_total st \<and> enough_per_type st then ''enough''
           else if remaining st \<le> 0 \<or> get_loop_count st \<ge> 20 then ''stop'' else ''need_more'')"
  by (simp add: check_enough_battles_node_def)

lemma check_is_balanced:
  "is_balanced (check_enough_battles_node st) = Some (enough_total st \<and> enough_per_type st)"
  by (simp add: check_enough_battles_node_def)

lemma route_check:
  "route_after_check_enough (check_enough_battles_node st) =
     (if enough_total st \<and> enough_per_type st then ''enough''
      else if remaining st \<le> 0 \<or> get_loop_count st \<ge> 20 then ''stop'' else ''need_more'')"
  by (simp add: route_after_check_enough_def get_stop_decision_def check_decision)

lemma dict_set_not_Nil [simp]: "dict_set d k v \<noteq> []"
  by (induction d k v rule: dict_set.induct) auto

lemma foldl_insert_Nil:
  "foldl (\<lambda>ins t. if P t then dict_set ins t (c t) else ins) d ts = []
     \<longleftrightarrow> d = [] \<and> (\<forall>t \<in> set ts. \<not> P t)"
  by (induction ts arbitrary: d) auto

lemma enough_per_type_iff:
  "enough_per_type st \<longleftrightarrow>
     (\<forall>t \<in> set REQUIRED_DECK_TYPES_LOWER. dict_get (deck_counts_lower st) t 0 \<ge> MIN_GAMES_PER_TYPE)"
proof -
  have "insufficient_types st =
      foldl (\<lambda>ins t. if dict_get (deck_counts_lower st) t 0 < MIN_GAMES_PER_TYPE
                       then dict_set ins t (dict_get (deck_counts_lower st) t 0) else ins)
            [] REQUIRED_DECK_TYPES_LOWER"
    by (simp add: insufficient_types_def Let_def)
  then show ?thesis
    by (simp add: enough_per_type_def foldl_insert_Nil not_less)
qed

text \<open>
  \<open>remaining\<close> is the number of unused indices when the used indices are indices of the
  population, and it is positive only if an unused index exists.
\<close>

lemma length_unused:
  assumes "fset (get_used_player_indices st) \<subseteq> {0..<length (get_top_players st)}"
  shows "int (length (unused_indices st)) = remaining st"
proof -
  let ?n = "length (get_top_players st)" and ?u = "fset (get_used_player_indices st)"
  have "distinct (unused_indices st)"
    by (simp add: unused_indices_def all_indices_def)
  then have "length (unused_indices st) = card (set (unused_indices st))"
    by (rule distinct_card [symmetric])
  also have "set (unused_indices st) = {0..<?n} - ?u"
    by (auto simp: unused_indices_def all_indices_def)
  also have "card ({0..<?n} - ?u) = ?n - card ?u"
    using assms by (simp add: card_Diff_subset)
  finally have "length (unused_indices st) = ?n - card ?u" .
  moreover have "card ?u \<le> ?n"
    using card_mono[OF _ assms] by simp
  ultimately show ?thesis
    by (simp add: remaining_def fcard.rep_eq)
qed

lemma unused_nonempty:
  assumes "remaining st > 0"
  shows "unused_indices st \<noteq> []"
proof
  assume e: "unused_indices st = []"
  have "{0..<length (get_top_players st)} \<subseteq> fset (get_used_player_indices st)"
    using e by (auto simp: unused_indices_def all_indices_def filter_empty_conv)
  then have "card {0..<length (get_top_players st)} \<le> card (fset (get_used_player_indices st))"
    by (intro card_mono) auto
  then show False using assms by (simp add: remaining_def fcard.rep_eq)
qed

subsection \<open>The cycle ends\<close>

lemma need_more_D:
  assumes "route_after_check_enough (fetch_compute_check G F U st) = ''need_more''"
  shows "remaining st > 0" "get_loop_count st < 20"
  using assms by (auto simp: fetch_compute_check_def route_check split: if_splits)

lemma sample_more_loop_count:
  "unused_indices st \<noteq> [] \<Longrightarrow> get_loop_count (sample_more_5_node d st) = get_loop_count st + 1"
  by (auto simp: sample_more_5_node_def Let_def getters unused_indices_def all_indices_def)

lemma need_more_loop_count:
  assumes "route_after_check_enough (fetch_compute_check G F U st) = ''need_more''"
  shows "get_loop_count (sample_more_5_node d (fetch_compute_check G F U st)) = get_loop_count st + 1"
proof -
  have "unused_indices (fetch_compute_check G F U st) \<noteq> []"
    using need_more_D(1)[OF assms] unused_nonempty[of st] by simp
  then show ?thesis
    by (simp add: sample_more_loop_count)
qed

termination meta_loop
proof (relation "measure (\<lambda>(G, F, U, draw, i, st). nat (20 - get_loop_count st))")
  show "wf (measure (\<lambda>(G, F, U, draw, i, st). nat (20 - get_loop_count st)))"
    by simp
next
  fix G :: "string \<Rightarrow> string + 'r" and F :: "'r \<Rightarrow> string + battle list"
    and U draw and i :: nat and st
  assume nm: "route_after_check_enough (fetch_compute_check G F U st) = ''need_more''"
  show "((G, F, U, draw, Suc i, sample_more_5_node (draw i) (fetch_compute_check G F U st)),
         (G, F, U, draw, i, st))
        \<in> measure (\<lambda>(G, F, U, draw, i, st). nat (20 - get_loop_count st))"
    using need_more_D(2)[OF nm] need_more_loop_count[OF nm] by simp
qed

declare meta_loop.simps [simp del]

subsection \<open>The loop over the selected players\<close>

lemma fetch_players_append:
  "fetch_players G F (ps @ qs) v = fetch_players G F qs (fetch_players G F ps v)"
  by (induction ps arbitrary: v) auto

text \<open>What one player adds to the cohort, given the tags fetched so far.\<close>

lemma fetch_player_skip:
  "tag p = None \<or> tag p = Some [] \<or> (\<exists>t. tag p = Some t \<and> t |\<in>| fetched_tags v) \<Longrightarrow> fetch_player G F p v = v"
  by (auto simp: fetch_player_def split: option.splits)

lemma fetch_player_success:
  assumes "tag p = Some t" "t \<noteq> []" "t |\<notin>| fetched_tags v" "try_fetch G F t = Inr normalized"
  shows "fetch_player G F p v =
     v\<lparr>meta_raw := meta_raw v @ take 10 normalized,
       new_battle_count := new_battle_count v + min (length normalized) 10,
       new_player_count := new_player_count v + 1,
       fetched_tags := finsert t (fetched_tags v),
       calls := calls v @ [t]\<rparr>"
  using assms by (simp add: fetch_player_def Let_def min_def)

lemma fetch_player_failure:
  assumes "tag p = Some t" "t \<noteq> []" "t |\<notin>| fetched_tags v" "try_fetch G F t = Inl e"
  shows "fetch_player G F p v =
     v\<lparr>fetch_notes := fetch_notes v @ [fetch_error_note t e], calls := calls v @ [t]\<rparr>"
  using assms by (simp add: fetch_player_def)

lemma fetch_player_cases:
  obtains (skip) "fetch_player G F p v = v"
      "tag p = None \<or> tag p = Some [] \<or> (\<exists>t. tag p = Some t \<and> t |\<in>| fetched_tags v)"
  | (success) t normalized where "tag p = Some t" "t \<noteq> []" "t |\<notin>| fetched_tags v"
      "try_fetch G F t = Inr normalized"
  | (failure) t e where "tag p = Some t" "t \<noteq> []" "t |\<notin>| fetched_tags v"
      "try_fetch G F t = Inl e"
proof (cases "tag p")
  case None
  then show ?thesis using skip fetch_player_skip[of p v G F] by simp
next
  case (Some t)
  show ?thesis
  proof (cases "t = [] \<or> t |\<in>| fetched_tags v")
    case True
    then show ?thesis using skip fetch_player_skip[of p v G F] Some by auto
  next
    case False
    then show ?thesis
      using Some success failure by (cases "try_fetch G F t") auto
  qed
qed

lemma fetch_player_prefix: "prefix (meta_raw v) (meta_raw (fetch_player G F p v))"
  by (cases p v rule: fetch_player_cases[where G = G and F = F])
     (simp_all add: fetch_player_success fetch_player_failure)

lemma fetch_player_length:
  "length (meta_raw (fetch_player G F p v)) \<le> length (meta_raw v) + 10"
  by (cases p v rule: fetch_player_cases[where G = G and F = F])
     (simp_all add: fetch_player_success fetch_player_failure)



lemma fetch_player_calls_prefix: "prefix (calls v) (calls (fetch_player G F p v))"
  by (cases p v rule: fetch_player_cases[where G = G and F = F])
     (simp_all add: fetch_player_success fetch_player_failure)

lemma fetch_players_prefix: "prefix (meta_raw v) (meta_raw (fetch_players G F ps v))"
proof (induction ps arbitrary: v)
  case Nil
  show ?case by simp
next
  case (Cons p ps)
  show ?case
    using prefix_order.trans[OF fetch_player_prefix Cons.IH] by simp
qed

lemma fetch_players_length:
  "length (meta_raw (fetch_players G F ps v)) \<le> length (meta_raw v) + 10 * length ps"
proof (induction ps arbitrary: v)
  case Nil
  show ?case by simp
next
  case (Cons p ps)
  show ?case
    using Cons.IH[of "fetch_player G F p v"] fetch_player_length[of G F p v] by simp
qed





subsection \<open>Failures and successes in a batch\<close>

lemma node_meta_raw:
  "get_meta_raw_battles (fetch_meta_battles_node G F st) = meta_raw (fetch_result G F st)"
  by (simp add: fetch_meta_battles_node_def fetch_result_def fetch_init_def Let_def get_meta_raw_battles_def)



lemma node_notes_length:
  "length (get_notes (fetch_meta_battles_node G F st)) = Suc (length (fetch_notes (fetch_result G F st)))"
  by (simp add: fetch_meta_battles_node_def fetch_result_def fetch_init_def Let_def get_notes_def)







subsection \<open>Retrieval calls\<close>


lemma subseq_concat:
  "list_all2 subseq xss yss \<Longrightarrow> subseq (concat xss) (concat yss)"
  by (induction rule: list_all2_induct) (auto intro: list_emb_append_mono)




lemma sample_more_frame [simp]:
  "get_top_players (sample_more_5_node d st) = get_top_players st"
  "get_meta_raw_battles (sample_more_5_node d st) = get_meta_raw_battles st"
  "get_fetched_player_tags (sample_more_5_node d st) = get_fetched_player_tags st"
  by (simp_all add: sample_more_5_node_def Let_def getters)

lemma fetched_fetch_compute_check [simp]:
  "get_fetched_player_tags (fetch_compute_check G F U st)
     = get_fetched_player_tags (fetch_meta_battles_node G F st)"
  "get_meta_raw_battles (fetch_compute_check G F U st)
     = get_meta_raw_battles (fetch_meta_battles_node G F st)"
  by (simp_all add: fetch_compute_check_def)



subsection \<open>Sampling\<close>

declare fset_of_list.rep_eq [simp]

lemma sample_more_valid:
  assumes "random_sample_ok (unused_indices st) (more_sample_size st) d"
  shows "new_indices d st = d"
    and "get_used_player_indices (sample_more_5_node d st)
           = get_used_player_indices st |\<union>| fset_of_list d"
proof -
  have e: "d = []" if "unused_indices st = []"
    using assms that by (simp add: random_sample_ok_def more_sample_size_def)
  have t: "unused_indices st = []" if "get_top_players st = []"
    using that by (simp add: unused_indices_def all_indices_def)
  show "new_indices d st = d"
    using e t by (auto simp: new_indices_def)
  show "get_used_player_indices (sample_more_5_node d st)
           = get_used_player_indices st |\<union>| fset_of_list d"
    using e t by (auto simp: sample_more_5_node_def Let_def get_used_player_indices_def)
qed

lemma set_unused:
  "set (unused_indices st) = {0..<length (get_top_players st)} - fset (get_used_player_indices st)"
  by (auto simp: unused_indices_def all_indices_def)

lemma meta_loop_sampling:
  assumes "list_all cycle_draw_ok (meta_loop G F U draw i st)"
    and "fset (get_used_player_indices st) \<subseteq> {0..<length (get_top_players st)}"
  shows "distinct (concat (map cycle_indices (meta_loop G F U draw i st)))
       \<and> set (concat (map cycle_indices (meta_loop G F U draw i st)))
            \<subseteq> {0..<length (get_top_players st)} - fset (get_used_player_indices st)
       \<and> used_grows (get_used_player_indices st) (meta_loop G F U draw i st)"
  using assms
proof (induction G F U draw i st rule: meta_loop.induct)
  case (1 G F U draw i st)
  let ?s = "fetch_compute_check G F U st"
  show ?case
  proof (cases "route_after_check_enough ?s = ''need_more''")
    case False
    then show ?thesis
      by (simp add: meta_loop.simps[of G F U draw i st] cycle_indices_def)
  next
    case True
    let ?d = "draw i"
    let ?st' = "sample_more_5_node ?d ?s"
    let ?rest = "meta_loop G F U draw (Suc i) ?st'"
    let ?c = "\<lparr>entering = st, leaving = ?s, drawn = Some ?d\<rparr>"
    have run: "meta_loop G F U draw i st = ?c # ?rest"
      using True by (simp add: meta_loop.simps[of G F U draw i st])
    have ok: "random_sample_ok (unused_indices ?s) (more_sample_size ?s) ?d"
      using "1.prems"(1) unfolding run by (simp add: cycle_draw_ok_def)
    have okr: "list_all cycle_draw_ok ?rest"
      using "1.prems"(1) unfolding run by simp
    have ci: "cycle_indices ?c = ?d"
      using sample_more_valid(1)[OF ok] by (simp add: cycle_indices_def)
    have u': "get_used_player_indices ?st' = get_used_player_indices st |\<union>| fset_of_list ?d"
      using sample_more_valid(2)[OF ok] by simp
    have dd: "distinct ?d" and ds: "set ?d \<subseteq> {0..<length (get_top_players st)} - fset (get_used_player_indices st)"
      using ok set_unused[of ?s] by (simp_all add: random_sample_ok_def)
    have top': "get_top_players ?st' = get_top_players st"
      by simp
    have inv': "fset (get_used_player_indices ?st') \<subseteq> {0..<length (get_top_players ?st')}"
      unfolding u' top' using "1.prems"(2) ds by auto
    have IH: "distinct (concat (map cycle_indices ?rest))"
      "set (concat (map cycle_indices ?rest))
            \<subseteq> {0..<length (get_top_players st)} - fset (get_used_player_indices ?st')"
      "used_grows (get_used_player_indices ?st') ?rest"
      using "1.IH"[OF True okr inv'] unfolding top' by auto
    have "set ?d \<inter> set (concat (map cycle_indices ?rest)) = {}"
      using IH(2) unfolding u' by auto
    then have a: "distinct (concat (map cycle_indices (?c # ?rest)))"
      using dd IH(1) ci by simp
    have b: "set (concat (map cycle_indices (?c # ?rest)))
            \<subseteq> {0..<length (get_top_players st)} - fset (get_used_player_indices st)"
      using ds IH(2) ci unfolding u' by auto
    have c: "used_grows (get_used_player_indices st) (?c # ?rest)"
      using IH(3) ci unfolding u' by simp
    show ?thesis unfolding run using a b c by blast
  qed
qed

lemma initial_state_simps [simp]:
  "get_top_players (initial_state P init) = P"
  "get_used_player_indices (initial_state P init) = {||}"
  "get_loop_count (initial_state P init) = 0"
  "get_meta_raw_battles (initial_state P init) = []"
  "get_fetched_player_tags (initial_state P init) = {||}"
  by (simp_all add: initial_state_def fetch_top_players_node_def getters)

lemma sample_initial_frame [simp]:
  "get_top_players (sample_initial_50_node d st) = get_top_players st"
  "get_loop_count (sample_initial_50_node d st) = get_loop_count st"
  "get_meta_raw_battles (sample_initial_50_node d st) = get_meta_raw_battles st"
  "get_fetched_player_tags (sample_initial_50_node d st) = get_fetched_player_tags st"
  by (simp_all add: sample_initial_50_node_def Let_def getters)

lemma sample_initial_valid:
  assumes "random_sample_ok (all_indices st) (initial_sample_size st) d"
  shows "sampled_indices d st = d"
    and "get_used_player_indices (sample_initial_50_node d st)
           = get_used_player_indices st |\<union>| fset_of_list d"
proof -
  have e: "d = []" if "get_top_players st = []"
    using assms that by (simp add: random_sample_ok_def initial_sample_size_def all_indices_def)
  show "sampled_indices d st = d"
    using e by (auto simp: sampled_indices_def)
  show "get_used_player_indices (sample_initial_50_node d st)
           = get_used_player_indices st |\<union>| fset_of_list d"
    using e by (auto simp: sample_initial_50_node_def Let_def get_used_player_indices_def)
qed

lemma distinct_concat_nth:
  "distinct (concat xss) \<Longrightarrow> i < j \<Longrightarrow> j < length xss \<Longrightarrow> set (xss ! i) \<inter> set (xss ! j) = {}"
proof (induction xss arbitrary: i j)
  case Nil
  then show ?case by simp
next
  case (Cons xs xss)
  obtain j' where j: "j = Suc j'" using Cons.prems(2) by (cases j) auto
  show ?case
  proof (cases i)
    case 0
    have "xss ! j' \<in> set xss" using Cons.prems(3) j by simp
    then show ?thesis using Cons.prems(1) 0 j by auto
  next
    case (Suc i')
    then show ?thesis using Cons.IH[of i' j'] Cons.prems j by simp
  qed
qed

lemma run_sampling:
  assumes "draws_ok P d0 init (run_graph G F U P d0 draw init)"
  shows "distinct (concat (returned_indices P d0 init (run_graph G F U P d0 draw init)))
       \<and> (\<forall>i j. i < j \<and> j < length (returned_indices P d0 init (run_graph G F U P d0 draw init)) \<longrightarrow>
             set (returned_indices P d0 init (run_graph G F U P d0 draw init) ! i)
               \<inter> set (returned_indices P d0 init (run_graph G F U P d0 draw init) ! j) = {})
       \<and> set (concat (returned_indices P d0 init (run_graph G F U P d0 draw init)))
            \<subseteq> {0..<length P}
       \<and> get_used_player_indices (initial_state P init) = {||}
       \<and> used_grows (fset_of_list (sampled_indices d0 (initial_state P init)))
            (run_graph G F U P d0 draw init)"
proof -
  let ?st0 = "initial_state P init"
  let ?st1 = "sample_initial_50_node d0 ?st0"
  let ?run = "run_graph G F U P d0 draw init"
  have ok0: "random_sample_ok (all_indices ?st0) (initial_sample_size ?st0) d0"
    and okr: "list_all cycle_draw_ok (meta_loop G F U draw 0 ?st1)"
    using assms by (simp_all add: draws_ok_def run_graph_def)
  have s0: "sampled_indices d0 ?st0 = d0"
    and u1: "get_used_player_indices ?st1 = fset_of_list d0"
    using sample_initial_valid[OF ok0] by simp_all
  have d0: "distinct d0" "set d0 \<subseteq> {0..<length P}"
    using ok0 by (simp_all add: random_sample_ok_def all_indices_def)
  have inv: "fset (get_used_player_indices ?st1) \<subseteq> {0..<length (get_top_players ?st1)}"
    using d0(2) by (simp add: u1 fset_of_list.rep_eq)
  have m: "distinct (concat (map cycle_indices ?run))"
    "set (concat (map cycle_indices ?run)) \<subseteq> {0..<length P} - set d0"
    "used_grows (fset_of_list d0) ?run"
    using meta_loop_sampling[OF okr inv] by (simp_all add: run_graph_def u1 fset_of_list.rep_eq)
  have a: "distinct (concat (returned_indices P d0 init ?run))"
    using m(1,2) d0(1) by (auto simp: returned_indices_def s0)
  have b: "set (concat (returned_indices P d0 init ?run)) \<subseteq> {0..<length P}"
    using m(2) d0(2) by (auto simp: returned_indices_def s0)
  show ?thesis
    using a b m(3) distinct_concat_nth[OF a] by (simp add: s0)
qed

subsection \<open>The bounded cycle and the cohort\<close>

lemma meta_loop_not_Nil [simp]: "meta_loop G F U draw i st \<noteq> []"
  by (simp add: meta_loop.simps[of G F U draw i st])




lemma fetch_node_prefix:
  "prefix (get_meta_raw_battles st) (get_meta_raw_battles (fetch_meta_battles_node G F st))"
  using fetch_players_prefix[of "fetch_init st" G F "get_selected_players st"]
  by (simp add: node_meta_raw fetch_result_def fetch_init_def)

lemma meta_loop_cohort:
  "list_all (\<lambda>c. prefix (get_meta_raw_battles st) (get_meta_raw_battles (entering c))
                \<and> prefix (get_meta_raw_battles (entering c)) (get_meta_raw_battles (leaving c)))
      (meta_loop G F U draw i st)
   \<and> sorted_wrt (\<lambda>a b. prefix (get_meta_raw_battles (leaving a)) (get_meta_raw_battles (leaving b)))
      (meta_loop G F U draw i st)"
proof (induction G F U draw i st rule: meta_loop.induct)
  case (1 G F U draw i st)
  let ?s = "fetch_compute_check G F U st"
  have p: "prefix (get_meta_raw_battles st) (get_meta_raw_battles ?s)"
    using fetch_node_prefix[of st G F] by simp
  show ?case
  proof (cases "route_after_check_enough ?s = ''need_more''")
    case False
    then show ?thesis
      using p by (simp add: meta_loop.simps[of G F U draw i st])
  next
    case True
    let ?st' = "sample_more_5_node (draw i) ?s"
    let ?rest = "meta_loop G F U draw (Suc i) ?st'"
    have run: "meta_loop G F U draw i st
        = \<lparr>entering = st, leaving = ?s, drawn = Some (draw i)\<rparr> # ?rest"
      using True by (simp add: meta_loop.simps[of G F U draw i st])
    have c': "get_meta_raw_battles ?st' = get_meta_raw_battles ?s"
      by simp
    have IH: "list_all (\<lambda>c. prefix (get_meta_raw_battles ?s) (get_meta_raw_battles (entering c))
                \<and> prefix (get_meta_raw_battles (entering c)) (get_meta_raw_battles (leaving c))) ?rest"
      "sorted_wrt (\<lambda>a b. prefix (get_meta_raw_battles (leaving a)) (get_meta_raw_battles (leaving b))) ?rest"
      using "1.IH"[OF True] unfolding c' by simp_all
    have a: "list_all (\<lambda>c. prefix (get_meta_raw_battles st) (get_meta_raw_battles (entering c))
                \<and> prefix (get_meta_raw_battles (entering c)) (get_meta_raw_battles (leaving c))) ?rest"
      using IH(1) p by (auto simp: list_all_iff intro: prefix_order.trans)
    have b: "\<forall>c \<in> set ?rest. prefix (get_meta_raw_battles ?s) (get_meta_raw_battles (leaving c))"
      using IH(1) by (auto simp: list_all_iff intro: prefix_order.trans)
    show ?thesis
      unfolding run using a b p IH(2) by simp
  qed
qed

subsection \<open>Tags of the selected players\<close>









subsection \<open>The per-category count\<close>





lemma deck_counts_lower_compute:
  "deck_counts_lower (compute_meta_analytics_node U st)
     = lower_keys (counts_of_rows (case opp_deck_types (U (get_meta_raw_battles st)) of
                                     None \<Rightarrow> [] | Some rs \<Rightarrow> rs))"
  by (simp add: deck_counts_lower_def deck_counts_raw_def compute_meta_analytics_node_def
      compute_meta_analytics_def Let_def get_meta_analytics_def)





subsection \<open>Example runs\<close>

lemma meta_loop_exhausted:
  assumes "remaining st \<le> 0"
  shows "meta_loop G F U draw i st
     = [\<lparr>entering = st, leaving = fetch_compute_check G F U st, drawn = None\<rparr>]"
proof -
  have "route_after_check_enough (fetch_compute_check G F U st) \<noteq> ''need_more''"
    using need_more_D(1)[of G F U st] assms by auto
  then show ?thesis
    by (simp add: meta_loop.simps[of G F U draw i st])
qed

lemma no_analytics_not_enough:
  "\<not> enough_per_type (compute_meta_analytics_node no_analytics st)"
  by (auto simp: enough_per_type_iff deck_counts_lower_compute no_analytics_def empty_analytics_def
      counts_of_rows_def lower_keys_def dict_get_def REQUIRED_DECK_TYPES_LOWER_def
      MIN_GAMES_PER_TYPE_def)

lemma meta_loop_need_more:
  assumes "remaining st > 0" "get_loop_count st < 20"
  shows "meta_loop G F no_analytics draw i st
     = \<lparr>entering = st, leaving = fetch_compute_check G F no_analytics st, drawn = Some (draw i)\<rparr>
         # meta_loop G F no_analytics draw (Suc i)
             (sample_more_5_node (draw i) (fetch_compute_check G F no_analytics st))"
proof -
  have "route_after_check_enough (fetch_compute_check G F no_analytics st) = ''need_more''"
    using assms no_analytics_not_enough[of "fetch_meta_battles_node G F st"]
    by (simp add: fetch_compute_check_def route_check)
  then show ?thesis
    by (simp add: meta_loop.simps[of G F no_analytics draw i st])
qed

lemma fcard_fset_of_list: "distinct xs \<Longrightarrow> fcard (fset_of_list xs) = length xs"
  by (simp add: fcard.rep_eq distinct_card)


text \<open>
  A run over 51 players: the initial sample takes the first 50, the first evaluation asks
  for more, \<open>sample_more_5\<close> draws the last player and the second evaluation stops.
\<close>

lemma big_run:
  fixes G :: "string \<Rightarrow> string + 'r" and F :: "'r \<Rightarrow> string + battle list"
  defines "st1 \<equiv> sample_initial_50_node [0..<50] (initial_state population_51 blank_state)"
  defines "s1 \<equiv> fetch_compute_check G F no_analytics st1"
  defines "st2 \<equiv> sample_more_5_node [50] s1"
  shows "run_graph G F no_analytics population_51 [0..<50] (\<lambda>i. [50]) blank_state
     = [\<lparr>entering = st1, leaving = s1, drawn = Some [50]\<rparr>,
        \<lparr>entering = st2, leaving = fetch_compute_check G F no_analytics st2, drawn = None\<rparr>]"
    and "draws_ok population_51 [0..<50] blank_state
           (run_graph G F no_analytics population_51 [0..<50] (\<lambda>i. [50]) blank_state)"
    and "returned_indices population_51 [0..<50] blank_state
           (run_graph G F no_analytics population_51 [0..<50] (\<lambda>i. [50]) blank_state)
         = [[0..<50], [50], []]"
proof -
  let ?st0 = "initial_state population_51 blank_state"
  have len: "length population_51 = 51" by (simp add: population_51_def)
  have ok0: "random_sample_ok (all_indices ?st0) (initial_sample_size ?st0) [0..<50]"
    by (auto simp: random_sample_ok_def all_indices_def initial_sample_size_def len)
  have u1: "get_used_player_indices st1 = fset_of_list [0..<50]"
    unfolding st1_def using sample_initial_valid(2)[OF ok0] by simp
  have top1: "get_top_players st1 = population_51" "get_loop_count st1 = 0"
    unfolding st1_def by simp_all
  have r1: "remaining st1 = 1"
    using fcard_fset_of_list[of "[0..<50]"] by (simp add: remaining_def u1 top1 len)
  have "[0..<51] = [0..<50] @ [50]"
    using upt_Suc_append[of 0 50] by simp
  then have un1: "unused_indices st1 = [50]"
    by (simp add: unused_indices_def all_indices_def top1 len u1)
  have ok1: "random_sample_ok (unused_indices s1) (more_sample_size s1) [50]"
    by (simp add: s1_def un1 random_sample_ok_def more_sample_size_def)
  have u2: "get_used_player_indices st2 = fset_of_list [0..<50] |\<union>| fset_of_list [50]"
    unfolding st2_def using sample_more_valid(2)[OF ok1] by (simp add: s1_def u1)
  have "fcard (fset_of_list ([0..<50] @ [50])) = 51"
    using fcard_fset_of_list[of "[0..<50] @ [50]"] by simp
  then have "fcard (get_used_player_indices st2) = 51"
    by (simp add: u2)
  moreover have "get_top_players st2 = population_51"
    by (simp add: st2_def s1_def top1)
  ultimately have r2: "remaining st2 \<le> 0"
    by (simp add: remaining_def len)
  have "meta_loop G F no_analytics (\<lambda>i. [50]) 0 st1
      = \<lparr>entering = st1, leaving = s1, drawn = Some [50]\<rparr>
          # meta_loop G F no_analytics (\<lambda>i. [50]) (Suc 0) st2"
    unfolding s1_def st2_def using meta_loop_need_more[of st1 G F "\<lambda>i. [50]" 0] r1 top1(2) by simp
  then show r: "run_graph G F no_analytics population_51 [0..<50] (\<lambda>i. [50]) blank_state
     = [\<lparr>entering = st1, leaving = s1, drawn = Some [50]\<rparr>,
        \<lparr>entering = st2, leaving = fetch_compute_check G F no_analytics st2, drawn = None\<rparr>]"
    using meta_loop_exhausted[OF r2, of G F no_analytics "\<lambda>i. [50]" "Suc 0"]
    by (simp add: run_graph_def st1_def)
  show "draws_ok population_51 [0..<50] blank_state
           (run_graph G F no_analytics population_51 [0..<50] (\<lambda>i. [50]) blank_state)"
    unfolding r using ok0 ok1 by (simp add: draws_ok_def cycle_draw_ok_def)
  show "returned_indices population_51 [0..<50] blank_state
           (run_graph G F no_analytics population_51 [0..<50] (\<lambda>i. [50]) blank_state)
         = [[0..<50], [50], []]"
    unfolding r using sample_initial_valid(1)[OF ok0] sample_more_valid(1)[OF ok1]
    by (simp add: returned_indices_def cycle_indices_def)
qed

subsection \<open>Example facts\<close>


lemma example_fetches:
  "try_fetch example_log example_normalize ''#A'' = Inl ''timeout''"
  "try_fetch example_log example_normalize ''#B'' = Inr (replicate 12 siege_battle)"
  by (simp_all add: try_fetch_def example_log_def example_normalize_def)

section \<open>The claims\<close>

text \<open>
  C1. When the used indices are indices of the population, \<open>check_enough_battles_node\<close>
  decides \<open>enough\<close> exactly when \<open>games_total\<close> reaches \<open>MIN_TOTAL_BATTLES\<close> and every
  required deck type, an absent one counting 0, reaches \<open>MIN_GAMES_PER_TYPE\<close>; otherwise
  it decides \<open>need_more\<close> exactly when an unused population index remains and
  \<open>loop_count\<close> is below 20; otherwise \<open>stop\<close>; and \<open>is_balanced\<close> is true exactly
  when the decision is \<open>enough\<close>.
\<close>

theorem check_enough_battles_decision:
  assumes "fset (get_used_player_indices st) \<subseteq> {0..<length (get_top_players st)}"
  shows "(stop_decision (check_enough_battles_node st) = Some ''enough'' \<longleftrightarrow>
            check_games_total st \<ge> MIN_TOTAL_BATTLES \<and>
            (\<forall>t \<in> set REQUIRED_DECK_TYPES_LOWER.
               dict_get (deck_counts_lower st) t 0 \<ge> MIN_GAMES_PER_TYPE))
       \<and> (stop_decision (check_enough_battles_node st) \<noteq> Some ''enough'' \<longrightarrow>
            (stop_decision (check_enough_battles_node st) = Some ''need_more'' \<longleftrightarrow>
               length (unused_indices st) > 0 \<and> get_loop_count st < 20))
       \<and> (stop_decision (check_enough_battles_node st) \<noteq> Some ''enough'' \<and>
          stop_decision (check_enough_battles_node st) \<noteq> Some ''need_more'' \<longrightarrow>
            stop_decision (check_enough_battles_node st) = Some ''stop'')
       \<and> is_balanced (check_enough_battles_node st)
            = Some (stop_decision (check_enough_battles_node st) = Some ''enough'')"
proof -
  have r: "remaining st \<le> 0 \<longleftrightarrow> \<not> length (unused_indices st) > 0"
    using length_unused[OF assms] by linarith
  show ?thesis
    unfolding check_decision check_is_balanced r
    by (auto simp: enough_total_def enough_per_type_iff)
qed

theorem check_enough_battles_decision_witness:
  "fset (get_used_player_indices (blank_state\<lparr>top_players := Some [player_a]\<rparr>))
     \<subseteq> {0..<length (get_top_players (blank_state\<lparr>top_players := Some [player_a]\<rparr>))}
   \<and> stop_decision (check_enough_battles_node (blank_state\<lparr>top_players := Some [player_a]\<rparr>))
       \<noteq> Some ''enough''
   \<and> stop_decision (check_enough_battles_node (blank_state\<lparr>top_players := Some [player_a]\<rparr>))
       = Some ''need_more''
   \<and> length (unused_indices (blank_state\<lparr>top_players := Some [player_a]\<rparr>)) > 0
   \<and> get_loop_count (blank_state\<lparr>top_players := Some [player_a]\<rparr>) < 20
   \<and> is_balanced (check_enough_battles_node (blank_state\<lparr>top_players := Some [player_a]\<rparr>))
       = Some False"
  using check_enough_battles_decision [of "blank_state\<lparr>top_players := Some [player_a]\<rparr>"]
  by (simp add: blank_state_def getters unused_indices_def all_indices_def check_games_total_def
      MIN_TOTAL_BATTLES_def empty_analytics_def)




text \<open>
  C3. In a run whose draws are results of \<open>random.sample\<close>, the index lists returned by
  the initial sampling call and by the \<open>sample_more_5\<close> calls have no index in common, within
  a list or between two lists; every returned index is below \<open>len(top_players)\<close>; the used
  index set is empty before the initial call, and after each call it is the set before
  plus the indices the call returned.
\<close>

theorem sampling_never_repeats:
  assumes "draws_ok P d0 init (run_graph G F U P d0 draw init)"
  shows "distinct (concat (returned_indices P d0 init (run_graph G F U P d0 draw init)))
       \<and> (\<forall>i j. i < j \<and> j < length (returned_indices P d0 init (run_graph G F U P d0 draw init)) \<longrightarrow>
             set (returned_indices P d0 init (run_graph G F U P d0 draw init) ! i)
               \<inter> set (returned_indices P d0 init (run_graph G F U P d0 draw init) ! j) = {})
       \<and> set (concat (returned_indices P d0 init (run_graph G F U P d0 draw init)))
            \<subseteq> {0..<length P}
       \<and> get_used_player_indices (initial_state P init) = {||}
       \<and> used_grows (fset_of_list (sampled_indices d0 (initial_state P init)))
            (run_graph G F U P d0 draw init)"
  using run_sampling [OF assms] .

theorem sampling_never_repeats_witness:
  "draws_ok population_51 [0..<50] blank_state
     (run_graph failing_log example_normalize no_analytics population_51 [0..<50] (\<lambda>i. [50]) blank_state)
   \<and> returned_indices population_51 [0..<50] blank_state
       (run_graph failing_log example_normalize no_analytics population_51 [0..<50] (\<lambda>i. [50]) blank_state)
       = [[0..<50], [50], []]
   \<and> distinct (concat (returned_indices population_51 [0..<50] blank_state
       (run_graph failing_log example_normalize no_analytics population_51 [0..<50] (\<lambda>i. [50]) blank_state)))
   \<and> set (concat (returned_indices population_51 [0..<50] blank_state
       (run_graph failing_log example_normalize no_analytics population_51 [0..<50] (\<lambda>i. [50]) blank_state)))
       \<subseteq> {0..<length population_51}"
proof -
  have h: "draws_ok population_51 [0..<50] blank_state
     (run_graph failing_log example_normalize no_analytics population_51 [0..<50] (\<lambda>i. [50]) blank_state)"
    by (rule big_run(2))
  show ?thesis
    using sampling_never_repeats[OF h] h big_run(3)[of failing_log example_normalize] by blast
qed








text \<open>
  C7. For a selected player whose tag is not yet fetched and whose retrieval succeeds,
  the loop appends \<open>normalized[:min(len(normalized), 10)]\<close> to the cohort, which is the
  first 10 records and has \<open>min(len(normalized), 10)\<close> elements; the cohort the node
  returns starts with the cohort up to and including these records; and no player adds
  more than 10 records.
\<close>

theorem fetch_takes_most_recent_10:
  assumes "get_selected_players st = ps1 @ p # ps2"
    and "tag p = Some t" and "t \<noteq> []"
    and "t |\<notin>| fetched_tags (fetch_players G F ps1 (fetch_init st))"
    and "try_fetch G F t = Inr normalized"
  shows "meta_raw (fetch_players G F (ps1 @ [p]) (fetch_init st))
           = meta_raw (fetch_players G F ps1 (fetch_init st))
               @ take (min (length normalized) 10) normalized
       \<and> take (min (length normalized) 10) normalized = take 10 normalized
       \<and> length (take (min (length normalized) 10) normalized) = min (length normalized) 10
       \<and> prefix (meta_raw (fetch_players G F ps1 (fetch_init st)) @ take 10 normalized)
                (get_meta_raw_battles (fetch_meta_battles_node G F st))
       \<and> (\<forall>q v. length (meta_raw (fetch_player G F q v)) \<le> length (meta_raw v) + 10)"
proof -
  let ?v1 = "fetch_players G F ps1 (fetch_init st)"
  have step: "meta_raw (fetch_player G F p ?v1) = meta_raw ?v1 @ take 10 normalized"
    using assms(2-5) by (simp add: fetch_player_success)
  have "fetch_result G F st = fetch_players G F ps2 (fetch_player G F p ?v1)"
    by (simp add: fetch_result_def assms(1) fetch_players_append)
  then have "prefix (meta_raw (fetch_player G F p ?v1)) (meta_raw (fetch_result G F st))"
    by (simp add: fetch_players_prefix)
  moreover have "take (min (length normalized) 10) normalized = take 10 normalized"
    by (simp add: min_def)
  ultimately show ?thesis
    using step by (simp add: fetch_players_append node_meta_raw fetch_player_length)
qed

theorem fetch_takes_most_recent_10_witness:
  "get_selected_players batch_b = [] @ player_b # []
   \<and> tag player_b = Some ''#B'' \<and> ''#B'' \<noteq> []
   \<and> ''#B'' |\<notin>| fetched_tags (fetch_players example_log example_normalize [] (fetch_init batch_b))
   \<and> try_fetch example_log example_normalize ''#B'' = Inr (replicate 12 siege_battle)
   \<and> get_meta_raw_battles (fetch_meta_battles_node example_log example_normalize batch_b)
        = replicate 10 siege_battle"
proof -
  have h1: "get_selected_players batch_b = [] @ player_b # []"
    by (simp add: batch_b_def blank_state_def get_selected_players_def)
  have h2: "tag player_b = Some ''#B''" and h3: "''#B'' \<noteq> []"
    by (simp_all add: player_b_def)
  have h4: "''#B'' |\<notin>| fetched_tags (fetch_players example_log example_normalize [] (fetch_init batch_b))"
    by (simp add: fetch_init_def batch_b_def blank_state_def get_fetched_player_tags_def)
  have h5: "try_fetch example_log example_normalize ''#B'' = Inr (replicate 12 siege_battle)"
    by (rule example_fetches)
  have m: "meta_raw (fetch_players example_log example_normalize ([] @ [player_b]) (fetch_init batch_b))
      = meta_raw (fetch_players example_log example_normalize [] (fetch_init batch_b))
          @ take (min (length (replicate 12 siege_battle)) 10) (replicate 12 siege_battle)"
    using fetch_takes_most_recent_10[OF h1 h2 h3 h4 h5] by blast
  have "get_meta_raw_battles (fetch_meta_battles_node example_log example_normalize batch_b)
      = meta_raw (fetch_players example_log example_normalize ([] @ [player_b]) (fetch_init batch_b))"
    by (simp add: node_meta_raw fetch_result_def h1)
  also have "\<dots> = replicate 10 siege_battle"
    unfolding m by (simp add: fetch_init_def batch_b_def blank_state_def get_meta_raw_battles_def)
  finally show ?thesis
    using h1 h2 h3 h4 h5 by blast
qed

text \<open>
  C8. When no unused index remains, \<open>sample_more_5_node\<close> returns an empty selection
  and one more note, and leaves the used-index set and \<open>loop_count\<close> as they were. When
  unused indices remain and the draw is a result of \<open>random.sample\<close>, it returns
  \<open>min(5, number of unused indices)\<close> players, those at the drawn indices, which are
  distinct unused indices of the population, and adds these indices to the used set.
\<close>

theorem sample_more_5_exhausted:
  "(unused_indices st = [] \<longrightarrow>
      get_selected_players (sample_more_5_node d st) = []
      \<and> get_used_player_indices (sample_more_5_node d st) = get_used_player_indices st
      \<and> get_loop_count (sample_more_5_node d st) = get_loop_count st
      \<and> butlast (get_notes (sample_more_5_node d st)) = get_notes st
      \<and> last (get_notes (sample_more_5_node d st))
           \<in> {''sample_more_5: no unused players left; cannot sample more.'',
              ''sample_more_5: WARNING '' @ en_dash @ '' top_players is empty.''})
   \<and> (unused_indices st \<noteq> [] \<and>
      random_sample_ok (unused_indices st) (more_sample_size st) d \<longrightarrow>
      get_selected_players (sample_more_5_node d st) = map (\<lambda>i. get_top_players st ! i) d
      \<and> length (get_selected_players (sample_more_5_node d st))
           = min 5 (length (unused_indices st))
      \<and> distinct d
      \<and> set d \<subseteq> {i. i < length (get_top_players st) \<and> i |\<notin>| get_used_player_indices st}
      \<and> get_used_player_indices (sample_more_5_node d st)
           = get_used_player_indices st |\<union>| fset_of_list d)"
proof -
  have t: "unused_indices st = []" if "get_top_players st = []"
    using that by (simp add: unused_indices_def all_indices_def)
  have a: "get_selected_players (sample_more_5_node d st) = []
      \<and> get_used_player_indices (sample_more_5_node d st) = get_used_player_indices st
      \<and> get_loop_count (sample_more_5_node d st) = get_loop_count st
      \<and> butlast (get_notes (sample_more_5_node d st)) = get_notes st
      \<and> last (get_notes (sample_more_5_node d st))
           \<in> {''sample_more_5: no unused players left; cannot sample more.'',
              ''sample_more_5: WARNING '' @ en_dash @ '' top_players is empty.''}"
    if "unused_indices st = []"
    using that by (simp add: sample_more_5_node_def Let_def getters)
  have b: "get_selected_players (sample_more_5_node d st) = map (\<lambda>i. get_top_players st ! i) d
      \<and> length (get_selected_players (sample_more_5_node d st))
           = min 5 (length (unused_indices st))
      \<and> distinct d
      \<and> set d \<subseteq> {i. i < length (get_top_players st) \<and> i |\<notin>| get_used_player_indices st}
      \<and> get_used_player_indices (sample_more_5_node d st)
           = get_used_player_indices st |\<union>| fset_of_list d"
    if u: "unused_indices st \<noteq> []"
      and ok: "random_sample_ok (unused_indices st) (more_sample_size st) d"
  proof -
    have "get_top_players st \<noteq> []" using t u by blast
    then have "get_selected_players (sample_more_5_node d st) = map (\<lambda>i. get_top_players st ! i) d"
      using u by (simp add: sample_more_5_node_def Let_def getters)
    moreover have "length d = min 5 (length (unused_indices st))" "distinct d"
      "set d \<subseteq> set (unused_indices st)"
      using ok by (simp_all add: random_sample_ok_def more_sample_size_def)
    ultimately show ?thesis
      using sample_more_valid(2)[OF ok] set_unused[of st] by auto
  qed
  show ?thesis using a b by blast
qed

theorem sample_more_5_exhausted_witness:
  "unused_indices exhausted_state = []
   \<and> get_selected_players (sample_more_5_node [] exhausted_state) = []
   \<and> get_used_player_indices (sample_more_5_node [] exhausted_state) = {|0|}
   \<and> unused_indices fresh_state \<noteq> []
   \<and> random_sample_ok (unused_indices fresh_state) (more_sample_size fresh_state) [1, 0]
   \<and> get_selected_players (sample_more_5_node [1, 0] fresh_state) = [player_b, player_a]
   \<and> length (get_selected_players (sample_more_5_node [1, 0] fresh_state)) = 2"
proof -
  have u: "unused_indices exhausted_state = []"
    by (simp add: unused_indices_def all_indices_def exhausted_state_def blank_state_def getters)
  have "[0..<2] = [0, Suc 0]"
    by (simp add: upt_rec)
  then have f: "unused_indices fresh_state = [0, 1]"
    by (simp add: unused_indices_def all_indices_def fresh_state_def blank_state_def getters)
  have ok: "random_sample_ok (unused_indices fresh_state) (more_sample_size fresh_state) [1, 0]"
    by (auto simp: f random_sample_ok_def more_sample_size_def)
  have n: "unused_indices fresh_state \<noteq> []" by (simp add: f)
  have top: "get_top_players fresh_state = [player_a, player_b]"
    "get_used_player_indices exhausted_state = {|0|}"
    by (simp_all add: fresh_state_def exhausted_state_def blank_state_def getters)
  show ?thesis
    using sample_more_5_exhausted[of exhausted_state "[]"]
      sample_more_5_exhausted[of fresh_state "[1, 0]"] u n ok f top
    by simp
qed

text \<open>
  C9. \<open>fetch_meta_battles_node\<close> returns a cohort that starts with the cohort it was
  given; \<open>compute_meta_analytics_node\<close>, \<open>check_enough_battles_node\<close> and
  \<open>sample_more_5_node\<close> leave the cohort as it is; so along a run the cohort after each
  evaluation is a prefix of the cohort after every later one, and its length never
  decreases.
\<close>

theorem cohort_only_grows:
  "prefix (get_meta_raw_battles st) (get_meta_raw_battles (fetch_meta_battles_node G F st))
   \<and> get_meta_raw_battles (compute_meta_analytics_node U st) = get_meta_raw_battles st
   \<and> get_meta_raw_battles (check_enough_battles_node st) = get_meta_raw_battles st
   \<and> get_meta_raw_battles (sample_more_5_node d st) = get_meta_raw_battles st
   \<and> sorted_wrt (\<lambda>a b. prefix (get_meta_raw_battles (leaving a)) (get_meta_raw_battles (leaving b)))
        (run_graph G F U P d0 draw init)
   \<and> sorted (map (\<lambda>c. length (get_meta_raw_battles (leaving c)))
        (run_graph G F U P d0 draw init))"
proof -
  let ?run = "run_graph G F U P d0 draw init"
  have s: "sorted_wrt (\<lambda>a b. prefix (get_meta_raw_battles (leaving a)) (get_meta_raw_battles (leaving b))) ?run"
    using meta_loop_cohort[of "sample_initial_50_node d0 (initial_state P init)" G F U draw 0]
    by (simp add: run_graph_def)
  have "sorted_wrt (\<lambda>a b. length (get_meta_raw_battles (leaving a))
                         \<le> length (get_meta_raw_battles (leaving b))) ?run"
    by (rule sorted_wrt_mono_rel[OF _ s]) (simp add: prefix_length_le)
  then have "sorted (map (\<lambda>c. length (get_meta_raw_battles (leaving c))) ?run)"
    by (simp add: sorted_wrt_map)
  then show ?thesis
    using s fetch_node_prefix[of st G F] by simp
qed

text \<open>
  C10. \<open>route_after_check_enough\<close> returns one of \<open>enough\<close>, \<open>need_more\<close> and \<open>stop\<close>
  for every state: \<open>stop\<close> when \<open>stop_decision\<close> is missing, empty or any other string,
  and the decision itself when it is one of the three.
\<close>

theorem route_after_check_enough_defined:
  "route_after_check_enough st \<in> {''enough'', ''need_more'', ''stop''}
   \<and> (stop_decision st \<notin> Some ` {''enough'', ''need_more'', ''stop''} \<longrightarrow>
        route_after_check_enough st = ''stop'')
   \<and> (stop_decision st \<in> Some ` {''enough'', ''need_more'', ''stop''} \<longrightarrow>
        stop_decision st = Some (route_after_check_enough st))"
  by (cases "stop_decision st") (auto simp: route_after_check_enough_def get_stop_decision_def)

theorem route_after_check_enough_defined_witness:
  "stop_decision (blank_state\<lparr>stop_decision := Some ''retry''\<rparr>)
       \<notin> Some ` {''enough'', ''need_more'', ''stop''}
   \<and> route_after_check_enough (blank_state\<lparr>stop_decision := Some ''retry''\<rparr>) = ''stop''
   \<and> stop_decision blank_state \<notin> Some ` {''enough'', ''need_more'', ''stop''}
   \<and> route_after_check_enough blank_state = ''stop''
   \<and> stop_decision (blank_state\<lparr>stop_decision := Some ''need_more''\<rparr>)
       \<in> Some ` {''enough'', ''need_more'', ''stop''}
   \<and> route_after_check_enough (blank_state\<lparr>stop_decision := Some ''need_more''\<rparr>) = ''need_more''"
  using route_after_check_enough_defined [of "blank_state\<lparr>stop_decision := Some ''retry''\<rparr>"]
    route_after_check_enough_defined [of blank_state]
    route_after_check_enough_defined [of "blank_state\<lparr>stop_decision := Some ''need_more''\<rparr>"]
  by (simp add: blank_state_def)

end
